theory Spec2Isabelle
  imports Main "HOL-Library.Sublist" "HOL-Library.Word"
begin

section \<open>JavaScript values and errors\<close>

text \<open>
  The fragment of JavaScript values that the modelled functions inspect. \<open>JNum n\<close> is
  the Number whose value is the integer \<open>n\<close> (the functions below only count,
  compare and print Numbers; the model has one zero), \<open>JInfinity\<close> and
  \<open>JNegInfinity\<close> are the infinite Numbers, \<open>JNaN\<close> is the not-a-number value, and
  \<open>JObj\<close> is an opaque object (a transaction receipt, a Merkle path) known by a label
  only.
\<close>

datatype jsval =
    JUndefined
  | JNull
  | JBool bool
  | JNum int
  | JInfinity
  | JNegInfinity
  | JNaN
  | JStr string
  | JObj string

text \<open>ToBoolean: what \<open>!x\<close>, \<open>x || y\<close>, \<open>x && y\<close> and \<open>x ? a : b\<close> look at.\<close>

fun truthy :: "jsval \<Rightarrow> bool" where
  "truthy JUndefined = False"
| "truthy JNull = False"
| "truthy (JBool b) = b"
| "truthy (JNum n) = (n \<noteq> 0)"
| "truthy JInfinity = True"
| "truthy JNegInfinity = True"
| "truthy JNaN = False"
| "truthy (JStr s) = (s \<noteq> [])"
| "truthy (JObj l) = True"

text \<open>A thrown value: \<open>Error(msg)\<close>, or the \<open>TypeError\<close> the runtime raises itself.\<close>

datatype exn = Error string | TypeError string

section \<open>Strings\<close>




text \<open>
  \<open>s.split(c)\<close> for a one-character separator: the pieces between the occurrences
  of \<open>c\<close>, empty pieces included; a string without \<open>c\<close> is its own single piece.
\<close>

fun split :: "char \<Rightarrow> string \<Rightarrow> string list" where
  "split c [] = [[]]"
| "split c (x # xs) =
     (if x = c then [] # split c xs
      else (case split c xs of
              [] \<Rightarrow> [[x]]
            | y # ys \<Rightarrow> (x # y) # ys))"

text \<open>The decimal digits of a non-negative integer, most significant digit first.\<close>

fun toString_nat :: "nat \<Rightarrow> string" where
  "toString_nat n =
     (if n < 10 then [char_of (48 + n)]
      else toString_nat (n div 10) @ [char_of (48 + n mod 10)])"

declare toString_nat.simps [simp del]

definition isDigit :: "char \<Rightarrow> bool" where
  "isDigit c = (48 \<le> (of_char c :: nat) \<and> (of_char c :: nat) \<le> 57)"

definition isWhiteSpace :: "char \<Rightarrow> bool" where
  "isWhiteSpace c = ((of_char c :: nat) \<in> {9, 10, 11, 12, 13, 32, 160})"

definition digitValue :: "char \<Rightarrow> nat" where
  "digitValue c = of_char c - 48"

definition digitsValue :: "string \<Rightarrow> nat" where
  "digitsValue ds = foldl (\<lambda>a c. 10 * a + digitValue c) 0 ds"

text \<open>
  A Number is a double: it has a significand of 53 bits. \<open>bitLength v\<close> is the number
  of binary digits of \<open>v\<close>, and \<open>roundToDouble v\<close> is the double nearest to the
  non-negative integer \<open>v\<close>, a tie going to the even significand: \<open>v\<close> itself
  below \<open>2^53\<close>, and \<open>None\<close>, for Infinity, when the rounded value reaches
  \<open>2^1024\<close>.
\<close>

fun bitLength :: "nat \<Rightarrow> nat" where
  "bitLength v = (if v = 0 then 0 else Suc (bitLength (v div 2)))"

declare bitLength.simps [simp del]

definition roundToDouble :: "nat \<Rightarrow> nat option" where
  "roundToDouble v =
     (if v < 2 ^ 53 then Some v
      else (let e = bitLength v - 53;
                q = v div 2 ^ e;
                r = v mod 2 ^ e;
                q' = (if 2 * r > 2 ^ e \<or> (2 * r = 2 ^ e \<and> odd q) then q + 1 else q)
            in if q' * 2 ^ e < 2 ^ 1024 then Some (q' * 2 ^ e) else None))"

text \<open>
  \<open>parseInt(s, 10)\<close>: leading white space is skipped, one sign is read, then the
  longest run of decimal digits; no digit at all gives NaN. The result is a Number: the
  integer the digits denote, rounded to the nearest double as Node's engine does, so
  that \<open>9007199254740993\<close> reads as \<open>9007199254740992\<close>.
\<close>

definition parseInt10 :: "string \<Rightarrow> jsval" where
  "parseInt10 s =
     (let t = dropWhile isWhiteSpace s;
          neg = (t \<noteq> [] \<and> hd t = CHR ''-'');
          u = (if t \<noteq> [] \<and> (hd t = CHR ''-'' \<or> hd t = CHR ''+'') then tl t else t);
          ds = takeWhile isDigit u
      in if ds = [] then JNaN
         else (case roundToDouble (digitsValue ds) of
                 None \<Rightarrow> (if neg then JNegInfinity else JInfinity)
               | Some m \<Rightarrow> JNum ((if neg then - 1 else 1) * int m)))"

section \<open>UAL codec\<close>


record ual =
  blockchain :: string
  contract :: string
  tokenId :: jsval

text \<open>
  \<open>segments[i]\<close>: the element, or \<open>undefined\<close> (here \<open>None\<close>) past the end.
\<close>

definition at_index :: "string list \<Rightarrow> nat \<Rightarrow> string option" where
  "at_index xs i = (if i < length xs then Some (xs ! i) else None)"

text \<open>
  \<open>a + b\<close> where each operand is a string or \<open>undefined\<close>: a string operand makes
  it a concatenation in which \<open>undefined\<close> prints as its name; \<open>undefined + undefined\<close>
  is the number NaN (here \<open>None\<close>: not a string).
\<close>

fun plus_str :: "string option \<Rightarrow> string option \<Rightarrow> string option" where
  "plus_str (Some a) (Some b) = Some (a @ b)"
| "plus_str (Some a) None = Some (a @ ''undefined'')"
| "plus_str None (Some b) = Some (''undefined'' @ b)"
| "plus_str None None = None"

text \<open>The reassembly step of \<open>resolveUAL\<close>: the value of \<open>argsString\<close>.\<close>

definition argsString :: "string list \<Rightarrow> string option" where
  "argsString segments =
     (if length segments = 3 then at_index segments 2
      else plus_str (at_index segments 2) (at_index segments 3))"

text \<open>
  The rest of \<open>resolveUAL\<close>, from \<open>argsString.split('/')\<close> on. A value that is not a
  string has no \<open>split\<close> method, and calling it raises a TypeError.
\<close>

definition resolveArgs :: "string \<Rightarrow> string option \<Rightarrow> exn + ual" where
  "resolveArgs ual_str a =
     (case a of
        None \<Rightarrow> Inl (TypeError ''argsString.split is not a function'')
      | Some s \<Rightarrow>
          (let args = split (CHR ''/'') s in
           if length args \<noteq> 3
           then Inl (Error (''UAL doesn't have correct format: '' @ ual_str))
           else Inr \<lparr>blockchain = args ! 0, contract = args ! 1,
                     tokenId = parseInt10 (args ! 2)\<rparr>))"

definition resolveUAL :: "string \<Rightarrow> exn + ual" where
  "resolveUAL ual_str = resolveArgs ual_str (argsString (split (CHR '':'') ual_str))"

section \<open>Transaction executor and read executor\<close>

record blockchain_config =
  wallet :: jsval
  privateKey :: jsval

record transaction =
  tx_from :: jsval
  tx_to :: jsval
  tx_data :: jsval
  gasPrice :: jsval
  gas :: jsval

text \<open>
  What the contract binding and the chain provider answer during one pass through the
  body of the loop of \<open>executeContractFunction\<close>: each call returns a value or throws.
  \<open>signTransaction\<close> answers with the \<open>rawTransaction\<close> of the signed transaction.
\<close>

record chain_attempt =
  estimateGas :: "exn + jsval"
  encodeABI :: "exn + jsval"
  signTransaction :: "transaction \<Rightarrow> jsval \<Rightarrow> exn + jsval"
  sendSignedTransaction :: "jsval \<Rightarrow> exn + jsval"

text \<open>The provider's unit conversion, for the two units the executor uses.\<close>

datatype wei_unit = Gwei | Kwei

fun toWei :: "nat \<Rightarrow> wei_unit \<Rightarrow> jsval" where
  "toWei n Gwei = JStr (toString_nat (n * 1000000000))"
| "toWei n Kwei = JStr (toString_nat (n * 1000))"

text \<open>
  The \<open>try\<close> block of \<open>executeContractFunction\<close>: the value assigned to
  \<open>result\<close>, or the exception that leaves the block.
\<close>

definition executeContractFunction_try ::
  "blockchain_config \<Rightarrow> jsval \<Rightarrow> chain_attempt \<Rightarrow> exn + jsval" where
  "executeContractFunction_try bc address env =
     (case estimateGas env of
        Inl e \<Rightarrow> Inl e
      | Inr gasLimit \<Rightarrow>
          (case encodeABI env of
             Inl e \<Rightarrow> Inl e
           | Inr encodedABI \<Rightarrow>
               (let tx = \<lparr>tx_from = wallet bc, tx_to = address, tx_data = encodedABI,
                          gasPrice = toWei 100 Gwei,
                          gas = (if truthy gasLimit then gasLimit else toWei 900 Kwei)\<rparr>
                in case signTransaction env tx (privateKey bc) of
                     Inl e \<Rightarrow> Inl e
                   | Inr rawTransaction \<Rightarrow> sendSignedTransaction env rawTransaction)))"

text \<open>
  One pass through \<open>try { result = ... } catch (error) { result = true; ... }\<close>: the
  value \<open>result\<close> holds afterwards.
\<close>

fun result_after :: "exn + jsval \<Rightarrow> jsval" where
  "result_after (Inl error) = JBool True"
| "result_after (Inr r) = r"

text \<open>
  \<open>while (!result) { ... } return result\<close>. The chain is a sequence of answers, one
  per pass; \<open>n\<close> counts the passes made so far and is returned beside the result. The
  loop has no bound, so the function is partial: \<open>None\<close> stands for a call that never
  returns.
\<close>

partial_function (option) executeContractFunction_loop ::
  "blockchain_config \<Rightarrow> jsval \<Rightarrow> (nat \<Rightarrow> chain_attempt) \<Rightarrow> nat \<Rightarrow> jsval
     \<Rightarrow> ((exn + jsval) \<times> nat) option" where
  "executeContractFunction_loop bc address chain n result =
     (if \<not> truthy result
      then executeContractFunction_loop bc address chain (Suc n)
             (result_after (executeContractFunction_try bc address (chain n)))
      else Some (Inr result, n))"

definition executeContractFunction ::
  "blockchain_config \<Rightarrow> jsval \<Rightarrow> (nat \<Rightarrow> chain_attempt) \<Rightarrow> ((exn + jsval) \<times> nat) option" where
  "executeContractFunction bc address chain =
     executeContractFunction_loop bc address chain 0 JUndefined"

text \<open>
  \<open>callContractFunction\<close>: the same loop around \<open>.call()\<close>, whose answer in pass
  \<open>n\<close> is \<open>calls n\<close>.
\<close>

partial_function (option) callContractFunction_loop ::
  "(nat \<Rightarrow> exn + jsval) \<Rightarrow> nat \<Rightarrow> jsval \<Rightarrow> ((exn + jsval) \<times> nat) option" where
  "callContractFunction_loop calls n result =
     (if \<not> truthy result
      then callContractFunction_loop calls (Suc n) (result_after (calls n))
      else Some (Inr result, n))"

definition callContractFunction ::
  "(nat \<Rightarrow> exn + jsval) \<Rightarrow> ((exn + jsval) \<times> nat) option" where
  "callContractFunction calls = callContractFunction_loop calls 0 JUndefined"

section \<open>Client\<close>

record client =
  maxNumberOfRetries :: int
  timeoutInSeconds :: int
  numberOfResults :: int
  frequency :: int
  loglevel :: string
  nodeBaseUrl :: string

text \<open>
  The argument of the constructor. An absent property is \<open>None\<close>; the numeric ones
  are integers when present.
\<close>

record client_options =
  o_loglevel :: "string option"
  o_maxNumberOfRetries :: "int option"
  o_timeoutInSeconds :: "int option"
  o_numberOfResults :: "int option"
  o_frequency :: "int option"
  o_endpoint :: "string option"
  o_port :: "string option"
  o_useSSL :: bool

definition defaultMaxNumberOfRetries :: int where
  "defaultMaxNumberOfRetries = 5"

definition defaultTimeoutInSeconds :: int where
  "defaultTimeoutInSeconds = 25"

definition defaultNumberOfResults :: int where
  "defaultNumberOfResults = 2000"

definition defaultFrequency :: int where
  "defaultFrequency = 5"

text \<open>Truthiness of an optional string: absent and empty are falsy.\<close>

fun truthy_str :: "string option \<Rightarrow> bool" where
  "truthy_str None = False"
| "truthy_str (Some v) = (v \<noteq> [])"

text \<open>
  \<open>x && x >= 0 ? x : d\<close>, as the constructor writes it for each numeric option:
  an absent option and zero are falsy.
\<close>

fun nonneg_or :: "int option \<Rightarrow> int \<Rightarrow> int" where
  "nonneg_or None d = d"
| "nonneg_or (Some v) d = (if v \<noteq> 0 \<and> v \<ge> 0 then v else d)"

text \<open>\<open>x ? x : d\<close>, as the pollers write it for each per-call override.\<close>

fun truthy_or :: "int option \<Rightarrow> int \<Rightarrow> int" where
  "truthy_or None d = d"
| "truthy_or (Some v) d = (if v \<noteq> 0 then v else d)"

fun str_or :: "string option \<Rightarrow> string \<Rightarrow> string" where
  "str_or None d = d"
| "str_or (Some v) d = (if v \<noteq> [] then v else d)"

text \<open>An optional string inside a template literal: \<open>undefined\<close> prints as its name.\<close>

fun template_str :: "string option \<Rightarrow> string" where
  "template_str None = ''undefined''"
| "template_str (Some v) = v"

definition AbstractClient :: "client_options \<Rightarrow> exn + client" where
  "AbstractClient options =
     (if \<not> truthy_str (o_endpoint options) \<or> \<not> truthy_str (o_port options)
      then Inl (Error ''Endpoint and port are required parameters'')
      else Inr \<lparr>maxNumberOfRetries =
                   nonneg_or (o_maxNumberOfRetries options) defaultMaxNumberOfRetries,
                timeoutInSeconds =
                   nonneg_or (o_timeoutInSeconds options) defaultTimeoutInSeconds,
                numberOfResults =
                   nonneg_or (o_numberOfResults options) defaultNumberOfResults,
                frequency = nonneg_or (o_frequency options) defaultFrequency,
                loglevel = str_or (o_loglevel options) ''error'',
                nodeBaseUrl = (if o_useSSL options then ''https://'' else ''http://'')
                   @ template_str (o_endpoint options) @ '':''
                   @ template_str (o_port options)\<rparr>)"

section \<open>Operation result resolver\<close>

record request_options =
  r_handler_id :: "string option"
  r_operation :: "string option"
  r_maxNumberOfRetries :: "int option"
  r_timeoutInSeconds :: "int option"
  r_numberOfResults :: "int option"
  r_frequency :: "int option"

text \<open>The body of a status response: \<open>response.data\<close>.\<close>

record result_data =
  status :: string
  message :: "string option"
  payload :: jsval

definition STATUS_pending :: string where
  "STATUS_pending = ''PENDING''"

definition STATUS_completed :: string where
  "STATUS_completed = ''COMPLETED''"

definition STATUS_failed :: string where
  "STATUS_failed = ''FAILED''"

text \<open>
  The \<open>do ... while\<close> loop of \<open>_getResult\<close>. \<open>poll i\<close> is what the request of pass
  \<open>i\<close> answers: a response body, or an exception of the transport. The second
  component of the result counts the status requests sent.
\<close>

function getResult_loop ::
  "(nat \<Rightarrow> exn + result_data) \<Rightarrow> int \<Rightarrow> nat \<Rightarrow> (exn + result_data) \<times> nat" where
  "getResult_loop poll maxRetries retries =
     (if int retries > maxRetries
      then (Inl (Error ''Unable to get results. Max number of retries reached.''), retries)
      else (case poll retries of
              Inl e \<Rightarrow> (Inl e, Suc retries)
            | Inr d \<Rightarrow>
                if status d = STATUS_pending
                then getResult_loop poll maxRetries (Suc retries)
                else (Inr d, Suc retries)))"
  by pat_completeness auto
termination
  by (relation "measure (\<lambda>(poll, maxRetries, retries). nat (maxRetries + 1 - int retries))")
    auto

declare getResult_loop.simps [simp del]

text \<open>The text of the error raised for a response whose status is FAILED.\<close>

definition failedMessage :: "request_options \<Rightarrow> result_data \<Rightarrow> string" where
  "failedMessage options d =
     ''Get '' @ template_str (r_operation options) @ '' failed. Reason: ''
     @ template_str (message d) @ ''.''"

text \<open>
  \<open>_getResult\<close>: the check of the handle and the operation, the loop, and the
  test for FAILED. The result is what the caller receives, a response body or an
  exception, beside the number of status requests sent.
\<close>

definition getResult ::
  "client \<Rightarrow> request_options \<Rightarrow> (nat \<Rightarrow> exn + result_data) \<Rightarrow> (exn + result_data) \<times> nat" where
  "getResult this options poll =
     (if \<not> truthy_str (r_handler_id options) \<or> \<not> truthy_str (r_operation options)
      then (Inl (Error ''Unable to get results, need handler id and operation''), 0)
      else (case getResult_loop poll
                   (truthy_or (r_maxNumberOfRetries options) (maxNumberOfRetries this)) 0 of
              (Inl e, polls) \<Rightarrow> (Inl e, polls)
            | (Inr d, polls) \<Rightarrow>
                if status d = STATUS_failed
                then (Inl (Error (failedMessage options d)), polls)
                else (Inr d, polls)))"

section \<open>Streaming search poller\<close>

record search_data =
  itemListElement :: "jsval list"

text \<open>
  The \<open>do ... while\<close> loop of \<open>_getSearchResult\<close>. \<open>fetch i\<close> is the answer to the
  request of tick \<open>i\<close>, \<open>timeoutFlag i\<close> the value of the flag the one-shot timer
  sets, read when the loop condition is evaluated after tick \<open>i\<close>, and \<open>cb\<close> the
  caller's callback, which may throw. The second component of the result counts the
  ticks. Nothing bounds the loop but the flag, so the function is partial.
\<close>

partial_function (option) getSearchResult_loop ::
  "(nat \<Rightarrow> exn + search_data) \<Rightarrow> (nat \<Rightarrow> bool) \<Rightarrow> (search_data \<Rightarrow> exn option) \<Rightarrow> int \<Rightarrow> nat
     \<Rightarrow> ((exn + search_data) \<times> nat) option" where
  "getSearchResult_loop fetch timeoutFlag cb target i =
     (case fetch i of
        Inl e \<Rightarrow> Some (Inl e, Suc i)
      | Inr d \<Rightarrow>
          (case cb d of
             Some e \<Rightarrow> Some (Inl e, Suc i)
           | None \<Rightarrow>
               if \<not> timeoutFlag i \<and> target > int (length (itemListElement d))
               then getSearchResult_loop fetch timeoutFlag cb target (Suc i)
               else Some (Inr d, Suc i)))"

definition getSearchResult ::
  "client \<Rightarrow> request_options \<Rightarrow> (nat \<Rightarrow> exn + search_data) \<Rightarrow> (nat \<Rightarrow> bool)
     \<Rightarrow> (search_data \<Rightarrow> exn option) \<Rightarrow> ((exn + search_data) \<times> nat) option" where
  "getSearchResult this options fetch timeoutFlag cb =
     (if \<not> truthy_str (r_handler_id options)
      then Some (Inl (Error ''Unable to get results, need handler id''), 0)
      else getSearchResult_loop fetch timeoutFlag cb
             (truthy_or (r_numberOfResults options) (numberOfResults this)) 0)"

section \<open>Proof validator\<close>

text \<open>
  An element of \<open>assertion.proofs\<close>, with its properties \<open>triple\<close> and \<open>proof\<close>
  (here \<open>entry_proof\<close>).
\<close>

record proof_entry =
  triple :: string
  entry_proof :: jsval

record assertion =
  assertionId :: string
  proofs :: "proof_entry list"

record validated_triple =
  v_triple :: string
  valid :: jsval

text \<open>
  \<open>_validateProof\<close> has no statement left in its body: the call evaluates to
  \<open>undefined\<close>.
\<close>

definition validateProof :: "proof_entry \<Rightarrow> jsval \<Rightarrow> jsval" where
  "validateProof obj rootHash = JUndefined"

text \<open>
  The inner loop of \<open>_performValidation\<close>, over the proofs of one assertion. An
  entry whose proof is \<open>null\<close> is passed over; for any other entry the record starts
  as \<open>{triple, valid: false}\<close>, \<open>valid\<close> is overwritten with what \<open>_validateProof\<close>
  gives, and the record is pushed.
\<close>

fun validateProofs ::
  "jsval \<Rightarrow> proof_entry list \<Rightarrow> validated_triple list \<Rightarrow> validated_triple list" where
  "validateProofs rootHash [] validationResult = validationResult"
| "validateProofs rootHash (obj # objs) validationResult =
     (if entry_proof obj = JNull
      then validateProofs rootHash objs validationResult
      else validateProofs rootHash objs
             (validationResult @ [\<lparr>v_triple = triple obj, valid = validateProof obj rootHash\<rparr>]))"

text \<open>
  The outer loop. \<open>fetchRootHash\<close> stands for \<open>_fetchRootHash\<close>, a resolve request
  to the node, which returns the root hash or throws.
\<close>

fun performValidation_loop ::
  "(string \<Rightarrow> exn + jsval) \<Rightarrow> assertion list \<Rightarrow> validated_triple list
     \<Rightarrow> exn + validated_triple list" where
  "performValidation_loop fetchRootHash [] validationResult = Inr validationResult"
| "performValidation_loop fetchRootHash (a # as) validationResult =
     (case fetchRootHash (assertionId a) of
        Inl e \<Rightarrow> Inl e
      | Inr rootHash \<Rightarrow>
          performValidation_loop fetchRootHash as
            (validateProofs rootHash (proofs a) validationResult))"

definition performValidation ::
  "(string \<Rightarrow> exn + jsval) \<Rightarrow> assertion list \<Rightarrow> exn + validated_triple list" where
  "performValidation fetchRootHash assertions =
     performValidation_loop fetchRootHash assertions []"

section \<open>Example inputs\<close>

definition example_config :: blockchain_config where
  "example_config = \<lparr>wallet = JStr ''0xf39Fd6e5'', privateKey = JStr ''0xac0974be''\<rparr>"

definition example_address :: jsval where
  "example_address = JStr ''0x5FbDB231''"

text \<open>
  A chain whose gas estimate fails in the first two passes and succeeds from the third
  on, and where signing and broadcasting succeed.
\<close>

definition gas_fails_twice :: "nat \<Rightarrow> chain_attempt" where
  "gas_fails_twice n =
     \<lparr>estimateGas = (if n < 2 then Inl (Error ''gas estimation failed'') else Inr (JNum 21000)),
      encodeABI = Inr (JStr ''0x095ea7b3''),
      signTransaction = (\<lambda>tx key. Inr (JStr ''0xf86c0a85'')),
      sendSignedTransaction = (\<lambda>raw. Inr (JObj ''receipt''))\<rparr>"

text \<open>A chain on which the broadcast is rejected in the first pass.\<close>

definition broadcast_rejected :: "nat \<Rightarrow> chain_attempt" where
  "broadcast_rejected n =
     \<lparr>estimateGas = Inr (JNum 0),
      encodeABI = Inr (JStr ''0x095ea7b3''),
      signTransaction = (\<lambda>tx key. Inr (JStr ''0xf86c0a85'')),
      sendSignedTransaction =
        (\<lambda>raw. if n = 0 then Inl (Error ''insufficient funds'') else Inr (JObj ''receipt''))\<rparr>"

text \<open>A read that reverts in the first pass.\<close>

definition read_reverts_once :: "nat \<Rightarrow> exn + jsval" where
  "read_reverts_once n =
     (if n = 0 then Inl (Error ''execution reverted'') else Inr (JStr ''0xe7f1725E''))"

text \<open>A read that answers with the empty string twice and then with an address.\<close>

definition read_empty_twice :: "nat \<Rightarrow> exn + jsval" where
  "read_empty_twice n = (if n < 2 then Inr (JStr []) else Inr (JStr ''0xe7f1725E''))"

text \<open>A client with the default settings and the options of a resolve request.\<close>

definition example_client :: client where
  "example_client =
     \<lparr>maxNumberOfRetries = 5, timeoutInSeconds = 25, numberOfResults = 2000, frequency = 5,
      loglevel = ''error'', nodeBaseUrl = ''http://localhost:8900''\<rparr>"

definition example_request :: request_options where
  "example_request =
     \<lparr>r_handler_id = Some ''b5a4e2d0'', r_operation = Some ''resolve'',
      r_maxNumberOfRetries = None, r_timeoutInSeconds = None, r_numberOfResults = None,
      r_frequency = None\<rparr>"

definition pending_response :: result_data where
  "pending_response = \<lparr>status = ''PENDING'', message = None, payload = JUndefined\<rparr>"

definition completed_response :: result_data where
  "completed_response = \<lparr>status = ''COMPLETED'', message = None, payload = JObj ''assertion''\<rparr>"

definition failed_response :: result_data where
  "failed_response = \<lparr>status = ''FAILED'', message = Some ''bad request'', payload = JUndefined\<rparr>"

text \<open>The status sequences PENDING, PENDING, COMPLETED; PENDING for ever; and FAILED.\<close>

definition completes_third :: "nat \<Rightarrow> exn + result_data" where
  "completes_third i = (if i < 2 then Inr pending_response else Inr completed_response)"

definition always_pending :: "nat \<Rightarrow> exn + result_data" where
  "always_pending i = Inr pending_response"

definition fails_first :: "nat \<Rightarrow> exn + result_data" where
  "fails_first i = Inr failed_response"

text \<open>
  Search results that grow from 5 to 50 to 2000 items, a timer that never fires, a timer
  that has fired when the second tick ends, and a callback that returns normally.
\<close>

definition growing_results :: "nat \<Rightarrow> exn + search_data" where
  "growing_results i =
     Inr \<lparr>itemListElement = replicate (if i = 0 then 5 else if i = 1 then 50 else 2000) JNull\<rparr>"

definition never_fires :: "nat \<Rightarrow> bool" where
  "never_fires i = False"

definition fires_during_second_tick :: "nat \<Rightarrow> bool" where
  "fires_during_second_tick i = (1 \<le> i)"

definition quiet_callback :: "search_data \<Rightarrow> exn option" where
  "quiet_callback d = None"

text \<open>
  One assertion with a proof entry that has a Merkle path and one whose proof is
  \<open>null\<close>, and a node that answers every root hash request.
\<close>

definition example_assertions :: "assertion list" where
  "example_assertions =
     [\<lparr>assertionId = ''0x7a3f'',
       proofs = [\<lparr>triple = ''<uuid:1> <company> OT .'', entry_proof = JObj ''merkle path''\<rparr>,
                 \<lparr>triple = ''<uuid:1> <city> <uuid:belgrade> .'', entry_proof = JNull\<rparr>]\<rparr>]"

definition example_rootHash :: "string \<Rightarrow> exn + jsval" where
  "example_rootHash requested = Inr (JStr ''0x9b1c'')"

text \<open>Constructor options that ask for zero retries, timeout, results and frequency.\<close>

definition zero_options :: client_options where
  "zero_options =
     \<lparr>o_loglevel = None, o_maxNumberOfRetries = Some 0, o_timeoutInSeconds = Some 0,
      o_numberOfResults = Some 0, o_frequency = Some 0,
      o_endpoint = Some ''localhost'', o_port = Some ''8900'', o_useSSL = False\<rparr>"

section \<open>Lemmas about strings\<close>

lemma split_nonempty: "split c s \<noteq> []"
  by (induction s) (auto split: list.splits)

lemma split_no_sep: "c \<notin> set s \<Longrightarrow> split c s = [s]"
  by (induction s) auto

lemma split_append_sep: "c \<notin> set a \<Longrightarrow> split c (a @ c # b) = a # split c b"
  by (induction a) auto
















lemma parseInt10_rounds:
  "parseInt10 ''9007199254740993'' = JNum 9007199254740992"
proof -
  have d: "digitsValue ''9007199254740993'' = 9007199254740993"
    by (simp add: digitsValue_def digitValue_def)
  have b: "bitLength 9007199254740993 = 54"
    by (simp add: bitLength.simps)
  have r: "roundToDouble 9007199254740993 = Some 9007199254740992"
    by (simp add: roundToDouble_def b Let_def)
  show ?thesis
    by (simp add: parseInt10_def isWhiteSpace_def isDigit_def d r)
qed



lemma split_three:
  assumes "c \<notin> set a" and "c \<notin> set b" and "c \<notin> set d"
  shows "split c (a @ c # b @ c # d) = [a, b, d]"
  using assms by (simp add: split_append_sep split_no_sep)

lemma argsString_short: "length segments < 3 \<Longrightarrow> argsString segments = None"
  by (simp add: argsString_def at_index_def)

lemma argsString_three: "length segments = 3 \<Longrightarrow> argsString segments = Some (segments ! 2)"
  by (simp add: argsString_def at_index_def)

lemma argsString_long:
  "4 \<le> length segments \<Longrightarrow> argsString segments = Some (segments ! 2 @ segments ! 3)"
  by (simp add: argsString_def at_index_def)

lemma argsString_None_iff: "argsString segments = None \<longleftrightarrow> length segments < 3"
proof (cases "length segments < 3")
  case True
  then show ?thesis by (simp add: argsString_short)
next
  case False
  then have "length segments = 3 \<or> 4 \<le> length segments" by arith
  then show ?thesis
    using False by (auto simp: argsString_three argsString_long)
qed

section \<open>UAL codec: round trip\<close>



section \<open>UAL codec: malformed locators\<close>

lemma resolveUAL_short:
  "length (split (CHR '':'') u) < 3 \<Longrightarrow>
     resolveUAL u = Inl (TypeError ''argsString.split is not a function'')"
  by (simp add: resolveUAL_def resolveArgs_def argsString_short)

text \<open>
  When the reassembly yields a string, and the string does not split at \<open>/\<close> into
  exactly three pieces, \<open>resolveUAL\<close> raises the format error, which carries the
  locator; and \<open>resolveUAL\<close> returns a result only for a locator whose reassembled
  argument string has exactly three pieces.
\<close>

lemma resolveUAL_piece_count:
  "(argsString (split (CHR '':'') u) = Some a \<and> length (split (CHR ''/'') a) \<noteq> 3
      \<longrightarrow> resolveUAL u = Inl (Error (''UAL doesn't have correct format: '' @ u)))
   \<and> (resolveUAL u = Inr r
      \<longrightarrow> (\<exists>s. argsString (split (CHR '':'') u) = Some s
               \<and> length (split (CHR ''/'') s) = 3))"
proof (intro conjI impI)
  assume "argsString (split (CHR '':'') u) = Some a \<and> length (split (CHR ''/'') a) \<noteq> 3"
  then show "resolveUAL u = Inl (Error (''UAL doesn't have correct format: '' @ u))"
    by (simp add: resolveUAL_def resolveArgs_def)
next
  assume res: "resolveUAL u = Inr r"
  show "\<exists>s. argsString (split (CHR '':'') u) = Some s \<and> length (split (CHR ''/'') s) = 3"
  proof (cases "argsString (split (CHR '':'') u)")
    case None
    with res show ?thesis by (simp add: resolveUAL_def resolveArgs_def)
  next
    case (Some s)
    with res have "length (split (CHR ''/'') s) = 3"
      by (simp add: resolveUAL_def resolveArgs_def Let_def split: if_splits)
    with Some show ?thesis by simp
  qed
qed

lemma resolveUAL_piece_count_examples:
  "resolveUAL ''did:dkg:hardhat/0xabc'' =
     Inl (Error ''UAL doesn't have correct format: did:dkg:hardhat/0xabc'')
   \<and> resolveUAL ''did:dkg:hardhat/0xabc/5/9'' =
     Inl (Error ''UAL doesn't have correct format: did:dkg:hardhat/0xabc/5/9'')
   \<and> resolveUAL ''did:dkg:hardhat'' =
     Inl (Error ''UAL doesn't have correct format: did:dkg:hardhat'')"
  using resolveUAL_piece_count [of "''did:dkg:hardhat/0xabc''" "''hardhat/0xabc''"]
    resolveUAL_piece_count [of "''did:dkg:hardhat/0xabc/5/9''" "''hardhat/0xabc/5/9''"]
    resolveUAL_piece_count [of "''did:dkg:hardhat''" "''hardhat''"]
  by (simp add: argsString_def at_index_def)

text \<open>
  C5. A locator with fewer than three segments between colons has no third segment:
  \<open>segments[2] + segments[3]\<close> is NaN, which has no \<open>split\<close> method. For the empty
  string, for \<open>did:dkg\<close> (one piece between slashes) and for \<open>hardhat/0xabc\<close> (two
  pieces), none of which has exactly three pieces, \<open>resolveUAL\<close> raises a TypeError
  before it reaches the test of the number of pieces: not the format error.
\<close>

theorem resolveUAL_short_locator_TypeError:
  "resolveUAL [] = Inl (TypeError ''argsString.split is not a function'')
   \<and> resolveUAL ''did:dkg'' = Inl (TypeError ''argsString.split is not a function'')
   \<and> resolveUAL ''hardhat/0xabc'' = Inl (TypeError ''argsString.split is not a function'')
   \<and> resolveUAL ''did:dkg'' \<noteq> Inl (Error ''UAL doesn't have correct format: did:dkg'')"
  by (simp add: resolveUAL_def resolveArgs_def argsString_def at_index_def)

section \<open>UAL codec: locators with more than three colon-separated segments\<close>

text \<open>
  C9. With exactly four segments between colons, \<open>resolveUAL\<close> decodes the third
  and the fourth segment joined without a separator, so that a chain written
  \<open>a:b\<close> is decoded as \<open>ab\<close>. With five or more segments it decodes the same
  two segments, as if the locator ended after the fourth: the later ones are dropped
  before the pieces are counted.
\<close>

theorem resolveUAL_reassembly:
  "(length (split (CHR '':'') u) = 4 \<longrightarrow>
      resolveUAL u = resolveArgs u (Some (split (CHR '':'') u ! 2 @ split (CHR '':'') u ! 3)))
   \<and> (5 \<le> length (split (CHR '':'') u) \<longrightarrow>
      resolveUAL u = resolveArgs u (argsString (take 4 (split (CHR '':'') u)))
      \<and> argsString (take 4 (split (CHR '':'') u))
          = Some (split (CHR '':'') u ! 2 @ split (CHR '':'') u ! 3))
   \<and> (CHR '':'' \<notin> set (a @ b @ c @ t) \<and> CHR ''/'' \<notin> set (a @ b @ c @ t) \<longrightarrow>
      resolveUAL (''did:dkg:'' @ a @ '':'' @ b @ ''/'' @ c @ ''/'' @ t)
        = Inr \<lparr>blockchain = a @ b, contract = c, tokenId = parseInt10 t\<rparr>)"
proof (intro conjI impI)
  assume "length (split (CHR '':'') u) = 4"
  then show "resolveUAL u
      = resolveArgs u (Some (split (CHR '':'') u ! 2 @ split (CHR '':'') u ! 3))"
    by (simp add: resolveUAL_def argsString_long)
next
  assume len: "5 \<le> length (split (CHR '':'') u)"
  then show t4: "argsString (take 4 (split (CHR '':'') u))
      = Some (split (CHR '':'') u ! 2 @ split (CHR '':'') u ! 3)"
    by (simp add: argsString_long)
  from len show "resolveUAL u = resolveArgs u (argsString (take 4 (split (CHR '':'') u)))"
    unfolding t4 by (simp add: resolveUAL_def argsString_long)
next
  assume free: "CHR '':'' \<notin> set (a @ b @ c @ t) \<and> CHR ''/'' \<notin> set (a @ b @ c @ t)"
  define rest where "rest = b @ CHR ''/'' # c @ CHR ''/'' # t"
  define u' where "u' = ''did:dkg:'' @ a @ '':'' @ b @ ''/'' @ c @ ''/'' @ t"
  have rest_colon: "CHR '':'' \<notin> set rest"
    using free by (simp add: rest_def)
  have "u' = ''did'' @ CHR '':'' # ''dkg'' @ CHR '':'' # a @ CHR '':'' # rest"
    by (simp add: u'_def rest_def)
  then have segs: "split (CHR '':'') u' = [''did'', ''dkg'', a, rest]"
    using free rest_colon by (simp add: split_append_sep split_no_sep)
  have "a @ rest = (a @ b) @ CHR ''/'' # c @ CHR ''/'' # t"
    by (simp add: rest_def)
  then have args: "split (CHR ''/'') (a @ rest) = [a @ b, c, t]"
    using free by (simp only: split_three) (intro split_three, simp_all)
  have "resolveUAL u' = resolveArgs u' (Some (a @ rest))"
    by (simp add: resolveUAL_def segs argsString_long)
  also have "\<dots> = Inr \<lparr>blockchain = a @ b, contract = c, tokenId = parseInt10 t\<rparr>"
    by (simp add: resolveArgs_def args)
  finally show "resolveUAL (''did:dkg:'' @ a @ '':'' @ b @ ''/'' @ c @ ''/'' @ t)
        = Inr \<lparr>blockchain = a @ b, contract = c, tokenId = parseInt10 t\<rparr>"
    by (simp only: u'_def)
qed

theorem resolveUAL_reassembly_witness:
  "resolveUAL ''did:dkg:abc:def/0x1/5'' =
     Inr \<lparr>blockchain = ''abcdef'', contract = ''0x1'', tokenId = JNum 5\<rparr>
   \<and> resolveUAL ''did:dkg:a:/b/5:junk:more'' =
     Inr \<lparr>blockchain = ''a'', contract = ''b'', tokenId = JNum 5\<rparr>"
proof -
  have "digitsValue ''5'' = 5"
    by (simp add: digitsValue_def digitValue_def)
  then have p: "parseInt10 ''5'' = JNum 5"
    by (simp add: parseInt10_def isWhiteSpace_def isDigit_def roundToDouble_def)
  show ?thesis
    using resolveUAL_reassembly [of "''did:dkg:abc:def/0x1/5''" "''abc''" "''def''" "''0x1''" "''5''"]
      resolveUAL_reassembly [of "''did:dkg:a:/b/5:junk:more''" "''abc''" "''def''" "''0x1''" "''5''"]
    by (simp add: resolveArgs_def argsString_def at_index_def p)
qed

section \<open>Transaction executor and read executor: the loop\<close>

lemma result_after_falsy:
  "\<not> truthy (result_after x) \<longleftrightarrow> (\<exists>v. x = Inr v \<and> \<not> truthy v)"
  by (cases x) auto

lemma callContractFunction_loop_done:
  "truthy result \<Longrightarrow> callContractFunction_loop calls n result = Some (Inr result, n)"
  by (subst callContractFunction_loop.simps) simp

lemma callContractFunction_loop_step:
  "\<not> truthy result \<Longrightarrow>
     callContractFunction_loop calls n result
       = callContractFunction_loop calls (Suc n) (result_after (calls n))"
  by (subst callContractFunction_loop.simps) simp

lemma callContractFunction_loop_run:
  assumes "\<forall>i<k. \<exists>v. calls (n + i) = Inr v \<and> \<not> truthy v" and "\<not> truthy result"
  shows "\<exists>r. \<not> truthy r \<and>
           callContractFunction_loop calls n result = callContractFunction_loop calls (n + k) r"
  using assms
proof (induction k arbitrary: n result)
  case 0
  then show ?case by auto
next
  case (Suc k)
  from Suc.prems(1) have first: "\<exists>v. calls n = Inr v \<and> \<not> truthy v"
    by (metis add.right_neutral zero_less_Suc)
  then have f: "\<not> truthy (result_after (calls n))"
    by (simp add: result_after_falsy)
  have "\<forall>i<k. \<exists>v. calls (Suc n + i) = Inr v \<and> \<not> truthy v"
    using Suc.prems(1) by (metis Suc_less_eq add_Suc_shift)
  from Suc.IH [OF this f] obtain r where r: "\<not> truthy r"
      "callContractFunction_loop calls (Suc n) (result_after (calls n))
         = callContractFunction_loop calls (Suc n + k) r"
    by blast
  with Suc.prems(2) show ?case
    by (auto simp: callContractFunction_loop_step)
qed

lemma callContractFunction_stops:
  assumes run: "\<forall>i<n. \<exists>v. calls i = Inr v \<and> \<not> truthy v"
    and stop: "truthy (result_after (calls n))"
  shows "callContractFunction calls = Some (Inr (result_after (calls n)), Suc n)"
proof -
  from run have "\<forall>i<n. \<exists>v. calls (0 + i) = Inr v \<and> \<not> truthy v" by simp
  from callContractFunction_loop_run [OF this, of JUndefined]
  obtain r where r: "\<not> truthy r"
      "callContractFunction_loop calls 0 JUndefined = callContractFunction_loop calls n r"
    by auto
  have "callContractFunction_loop calls n r
          = callContractFunction_loop calls (Suc n) (result_after (calls n))"
    using r(1) by (rule callContractFunction_loop_step)
  also have "\<dots> = Some (Inr (result_after (calls n)), Suc n)"
    using stop by (rule callContractFunction_loop_done)
  finally show ?thesis
    by (simp add: callContractFunction_def r(2))
qed

lemma callContractFunction_loop_sound:
  assumes "callContractFunction_loop calls n result = Some y"
  shows "(truthy result \<longrightarrow> y = (Inr result, n))
       \<and> (\<not> truthy result \<longrightarrow> n < snd y)
       \<and> (\<exists>v. fst y = Inr v \<and> truthy v)
       \<and> (\<forall>i. n \<le> i \<and> Suc i < snd y \<longrightarrow> (\<exists>v. calls i = Inr v \<and> \<not> truthy v))"
  using assms
proof (induction rule: callContractFunction_loop.raw_induct [rotated 1, consumes 1, case_names step])
  case (step loop calls n result y)
  show ?case
  proof (cases "truthy result")
    case True
    with step(2) show ?thesis by auto
  next
    case False
    with step(2) have rec: "loop calls (Suc n) (result_after (calls n)) = Some y" by simp
    note ih = step(1) [OF rec]
    have a: "n < snd y"
      using ih by (cases "truthy (result_after (calls n))") auto
    have b: "\<exists>v. calls i = Inr v \<and> \<not> truthy v" if "n \<le> i" and "Suc i < snd y" for i
    proof (cases "i = n")
      case True
      with that ih have "\<not> truthy (result_after (calls n))" by auto
      with True show ?thesis by (simp add: result_after_falsy)
    next
      case False
      with that have "Suc n \<le> i" by simp
      with that ih show ?thesis by blast
    qed
    from False a b ih show ?thesis by blast
  qed
qed

lemma executeContractFunction_loop_done:
  "truthy result \<Longrightarrow> executeContractFunction_loop bc a chain n result = Some (Inr result, n)"
  by (subst executeContractFunction_loop.simps) simp

lemma executeContractFunction_loop_step:
  "\<not> truthy result \<Longrightarrow>
     executeContractFunction_loop bc a chain n result
       = executeContractFunction_loop bc a chain (Suc n)
           (result_after (executeContractFunction_try bc a (chain n)))"
  by (subst executeContractFunction_loop.simps) simp

lemma executeContractFunction_loop_run:
  assumes "\<forall>i<k. \<exists>v. executeContractFunction_try bc a (chain (n + i)) = Inr v \<and> \<not> truthy v"
    and "\<not> truthy result"
  shows "\<exists>r. \<not> truthy r \<and>
           executeContractFunction_loop bc a chain n result
             = executeContractFunction_loop bc a chain (n + k) r"
  using assms
proof (induction k arbitrary: n result)
  case 0
  then show ?case by auto
next
  case (Suc k)
  from Suc.prems(1)
  have first: "\<exists>v. executeContractFunction_try bc a (chain n) = Inr v \<and> \<not> truthy v"
    by (metis add.right_neutral zero_less_Suc)
  then have f: "\<not> truthy (result_after (executeContractFunction_try bc a (chain n)))"
    by (simp add: result_after_falsy)
  have "\<forall>i<k. \<exists>v. executeContractFunction_try bc a (chain (Suc n + i)) = Inr v \<and> \<not> truthy v"
    using Suc.prems(1) by (metis Suc_less_eq add_Suc_shift)
  from Suc.IH [OF this f] obtain r where r: "\<not> truthy r"
      "executeContractFunction_loop bc a chain (Suc n)
           (result_after (executeContractFunction_try bc a (chain n)))
         = executeContractFunction_loop bc a chain (Suc n + k) r"
    by blast
  with Suc.prems(2) show ?case
    by (auto simp: executeContractFunction_loop_step)
qed

lemma executeContractFunction_stops:
  assumes run: "\<forall>i<n. \<exists>v. executeContractFunction_try bc a (chain i) = Inr v \<and> \<not> truthy v"
    and stop: "truthy (result_after (executeContractFunction_try bc a (chain n)))"
  shows "executeContractFunction bc a chain
           = Some (Inr (result_after (executeContractFunction_try bc a (chain n))), Suc n)"
proof -
  from run
  have "\<forall>i<n. \<exists>v. executeContractFunction_try bc a (chain (0 + i)) = Inr v \<and> \<not> truthy v"
    by simp
  from executeContractFunction_loop_run [OF this, of JUndefined]
  obtain r where r: "\<not> truthy r"
      "executeContractFunction_loop bc a chain 0 JUndefined
         = executeContractFunction_loop bc a chain n r"
    by auto
  have "executeContractFunction_loop bc a chain n r
          = executeContractFunction_loop bc a chain (Suc n)
              (result_after (executeContractFunction_try bc a (chain n)))"
    using r(1) by (rule executeContractFunction_loop_step)
  also have "\<dots> = Some (Inr (result_after (executeContractFunction_try bc a (chain n))), Suc n)"
    using stop by (rule executeContractFunction_loop_done)
  finally show ?thesis
    by (simp add: executeContractFunction_def r(2))
qed

lemma executeContractFunction_loop_sound:
  assumes "executeContractFunction_loop bc a chain n result = Some y"
  shows "(truthy result \<longrightarrow> y = (Inr result, n))
       \<and> (\<not> truthy result \<longrightarrow> n < snd y)
       \<and> (\<exists>v. fst y = Inr v \<and> truthy v)
       \<and> (\<forall>i. n \<le> i \<and> Suc i < snd y \<longrightarrow>
             (\<exists>v. executeContractFunction_try bc a (chain i) = Inr v \<and> \<not> truthy v))"
  using assms
proof (induction rule: executeContractFunction_loop.raw_induct [rotated 1, consumes 1, case_names step])
  case (step loop bc a chain n result y)
  let ?r = "result_after (executeContractFunction_try bc a (chain n))"
  show ?case
  proof (cases "truthy result")
    case True
    with step(2) show ?thesis by auto
  next
    case False
    with step(2) have rec: "loop bc a chain (Suc n) ?r = Some y" by simp
    note ih = step(1) [OF rec]
    have a: "n < snd y"
      using ih by (cases "truthy ?r") auto
    have b: "\<exists>v. executeContractFunction_try bc a (chain i) = Inr v \<and> \<not> truthy v"
      if "n \<le> i" and "Suc i < snd y" for i
    proof (cases "i = n")
      case True
      with that ih have "\<not> truthy ?r" by auto
      with True show ?thesis by (simp add: result_after_falsy)
    next
      case False
      with that have "Suc n \<le> i" by simp
      with that ih show ?thesis by blast
    qed
    from False a b ih show ?thesis by blast
  qed
qed

section \<open>Transaction executor and read executor: exceptions\<close>

text \<open>
  C1, as the specification states it, fails: on a chain whose gas estimate fails twice
  and then succeeds, with signing and broadcasting succeeding (the third pass would
  return the receipt), \<open>executeContractFunction\<close> makes one pass, not three, and
  returns \<open>true\<close>, not the receipt.
\<close>

theorem executeContractFunction_retry_counterexample:
  "executeContractFunction_try example_config example_address (gas_fails_twice 0)
     = Inl (Error ''gas estimation failed'')
   \<and> executeContractFunction_try example_config example_address (gas_fails_twice 1)
     = Inl (Error ''gas estimation failed'')
   \<and> executeContractFunction_try example_config example_address (gas_fails_twice 2)
     = Inr (JObj ''receipt'')
   \<and> executeContractFunction example_config example_address gas_fails_twice
     = Some (Inr (JBool True), 1)
   \<and> executeContractFunction example_config example_address gas_fails_twice
     \<noteq> Some (Inr (JObj ''receipt''), 3)"
proof -
  have t0: "executeContractFunction_try example_config example_address (gas_fails_twice 0)
     = Inl (Error ''gas estimation failed'')"
    by (simp add: executeContractFunction_try_def gas_fails_twice_def)
  have t1: "executeContractFunction_try example_config example_address (gas_fails_twice 1)
     = Inl (Error ''gas estimation failed'')"
    by (simp add: executeContractFunction_try_def gas_fails_twice_def)
  have t2: "executeContractFunction_try example_config example_address (gas_fails_twice 2)
     = Inr (JObj ''receipt'')"
    by (simp add: executeContractFunction_try_def gas_fails_twice_def)
  have "executeContractFunction example_config example_address gas_fails_twice
     = Some (Inr (result_after
          (executeContractFunction_try example_config example_address (gas_fails_twice 0))), Suc 0)"
    by (rule executeContractFunction_stops) (simp_all add: t0)
  then have r: "executeContractFunction example_config example_address gas_fails_twice
     = Some (Inr (JBool True), 1)"
    by (simp add: t0)
  from t0 t1 t2 r show ?thesis by simp
qed

text \<open>
  C1, amended. The loop of \<open>executeContractFunction\<close> and of \<open>callContractFunction\<close>
  ends with the first pass that throws or yields a truthy value: after \<open>n\<close> passes
  that each completed with a falsy value, a pass that throws makes the function return
  \<open>true\<close>, and a pass that yields a truthy value makes it return that value, in both
  cases after \<open>n + 1\<close> passes. An exception is never followed by another pass.
\<close>

theorem executor_stops_at_first_throw:
  "((\<forall>i<n. \<exists>v. executeContractFunction_try bc a (chain i) = Inr v \<and> \<not> truthy v) \<longrightarrow>
      (\<forall>e. executeContractFunction_try bc a (chain n) = Inl e \<longrightarrow>
           executeContractFunction bc a chain = Some (Inr (JBool True), Suc n))
      \<and> (\<forall>v. executeContractFunction_try bc a (chain n) = Inr v \<and> truthy v \<longrightarrow>
           executeContractFunction bc a chain = Some (Inr v, Suc n)))
   \<and> ((\<forall>i<n. \<exists>v. calls i = Inr v \<and> \<not> truthy v) \<longrightarrow>
      (\<forall>e. calls n = Inl e \<longrightarrow> callContractFunction calls = Some (Inr (JBool True), Suc n))
      \<and> (\<forall>v. calls n = Inr v \<and> truthy v \<longrightarrow>
           callContractFunction calls = Some (Inr v, Suc n)))"
proof (intro conjI impI allI)
  fix e
  assume run: "\<forall>i<n. \<exists>v. executeContractFunction_try bc a (chain i) = Inr v \<and> \<not> truthy v"
    and thrown: "executeContractFunction_try bc a (chain n) = Inl e"
  from executeContractFunction_stops [OF run] thrown
  show "executeContractFunction bc a chain = Some (Inr (JBool True), Suc n)" by simp
next
  fix v
  assume run: "\<forall>i<n. \<exists>v. executeContractFunction_try bc a (chain i) = Inr v \<and> \<not> truthy v"
    and sent: "executeContractFunction_try bc a (chain n) = Inr v \<and> truthy v"
  from executeContractFunction_stops [OF run] sent
  show "executeContractFunction bc a chain = Some (Inr v, Suc n)" by simp
next
  fix e
  assume run: "\<forall>i<n. \<exists>v. calls i = Inr v \<and> \<not> truthy v"
    and thrown: "calls n = Inl e"
  from callContractFunction_stops [OF run] thrown
  show "callContractFunction calls = Some (Inr (JBool True), Suc n)" by simp
next
  fix v
  assume run: "\<forall>i<n. \<exists>v. calls i = Inr v \<and> \<not> truthy v"
    and answered: "calls n = Inr v \<and> truthy v"
  from callContractFunction_stops [OF run] answered
  show "callContractFunction calls = Some (Inr v, Suc n)" by simp
qed

theorem executor_stops_at_first_throw_witness:
  "executeContractFunction example_config example_address gas_fails_twice
     = Some (Inr (JBool True), 1)
   \<and> callContractFunction read_empty_twice = Some (Inr (JStr ''0xe7f1725E''), 3)"
proof -
  have t0: "executeContractFunction_try example_config example_address (gas_fails_twice 0)
     = Inl (Error ''gas estimation failed'')"
    by (simp add: executeContractFunction_try_def gas_fails_twice_def)
  have run: "\<forall>i<2. \<exists>v. read_empty_twice i = Inr v \<and> \<not> truthy v"
    by (simp add: read_empty_twice_def)
  have last: "read_empty_twice 2 = Inr (JStr ''0xe7f1725E'') \<and> truthy (JStr ''0xe7f1725E'')"
    by (simp add: read_empty_twice_def)
  from executor_stops_at_first_throw
         [of 0 example_config example_address gas_fails_twice read_empty_twice] t0
  have a: "executeContractFunction example_config example_address gas_fails_twice
     = Some (Inr (JBool True), 1)"
    by simp
  from executor_stops_at_first_throw
         [of 2 example_config example_address gas_fails_twice read_empty_twice] run last
  have b: "callContractFunction read_empty_twice = Some (Inr (JStr ''0xe7f1725E''), 3)"
    by (simp add: numeral_3_eq_3)
  from a b show ?thesis by simp
qed

text \<open>
  C8. When the first pass of \<open>executeContractFunction\<close> or of \<open>callContractFunction\<close>
  throws, the function returns \<open>true\<close> after that one pass; when it yields a truthy
  value, the function returns the value after that one pass. Whatever the chain
  answers, a call that returns gives a value, never an exception, and every pass
  but the last one completed without throwing and with a falsy value.
\<close>

theorem executor_single_attempt:
  "(executeContractFunction_try bc a (chain 0) = Inl e \<longrightarrow>
      executeContractFunction bc a chain = Some (Inr (JBool True), 1))
   \<and> (executeContractFunction_try bc a (chain 0) = Inr v \<and> truthy v \<longrightarrow>
      executeContractFunction bc a chain = Some (Inr v, 1))
   \<and> (executeContractFunction bc a chain = Some (r, k) \<longrightarrow>
      (\<exists>x. r = Inr x) \<and> 0 < k
      \<and> (\<forall>i. Suc i < k \<longrightarrow>
            (\<exists>x. executeContractFunction_try bc a (chain i) = Inr x \<and> \<not> truthy x)))
   \<and> (calls 0 = Inl e \<longrightarrow> callContractFunction calls = Some (Inr (JBool True), 1))
   \<and> (calls 0 = Inr v \<and> truthy v \<longrightarrow> callContractFunction calls = Some (Inr v, 1))
   \<and> (callContractFunction calls = Some (r', k') \<longrightarrow>
      (\<exists>x. r' = Inr x) \<and> 0 < k'
      \<and> (\<forall>i. Suc i < k' \<longrightarrow> (\<exists>x. calls i = Inr x \<and> \<not> truthy x)))"
proof (intro conjI impI)
  assume "executeContractFunction_try bc a (chain 0) = Inl e"
  with executeContractFunction_stops [of 0 bc a chain]
  show "executeContractFunction bc a chain = Some (Inr (JBool True), 1)" by simp
next
  assume "executeContractFunction_try bc a (chain 0) = Inr v \<and> truthy v"
  with executeContractFunction_stops [of 0 bc a chain]
  show "executeContractFunction bc a chain = Some (Inr v, 1)" by simp
next
  assume "calls 0 = Inl e"
  with callContractFunction_stops [of 0 calls]
  show "callContractFunction calls = Some (Inr (JBool True), 1)" by simp
next
  assume "calls 0 = Inr v \<and> truthy v"
  with callContractFunction_stops [of 0 calls]
  show "callContractFunction calls = Some (Inr v, 1)" by simp
next
  assume "executeContractFunction bc a chain = Some (r, k)"
  then have ret: "executeContractFunction_loop bc a chain 0 JUndefined = Some (r, k)"
    by (simp add: executeContractFunction_def)
  note s = executeContractFunction_loop_sound [OF ret]
  from s show "\<exists>x. r = Inr x" by auto
  from s show "0 < k" by simp
  from s show "\<forall>i. Suc i < k \<longrightarrow>
      (\<exists>x. executeContractFunction_try bc a (chain i) = Inr x \<and> \<not> truthy x)"
    by simp
next
  assume "callContractFunction calls = Some (r', k')"
  then have ret: "callContractFunction_loop calls 0 JUndefined = Some (r', k')"
    by (simp add: callContractFunction_def)
  note s = callContractFunction_loop_sound [OF ret]
  from s show "\<exists>x. r' = Inr x" by auto
  from s show "0 < k'" by simp
  from s show "\<forall>i. Suc i < k' \<longrightarrow> (\<exists>x. calls i = Inr x \<and> \<not> truthy x)"
    by simp
qed

theorem executor_single_attempt_witness:
  "executeContractFunction example_config example_address broadcast_rejected
     = Some (Inr (JBool True), 1)
   \<and> callContractFunction read_reverts_once = Some (Inr (JBool True), 1)"
proof -
  have t: "executeContractFunction_try example_config example_address (broadcast_rejected 0)
     = Inl (Error ''insufficient funds'')"
    by (simp add: executeContractFunction_try_def broadcast_rejected_def)
  have c: "read_reverts_once 0 = Inl (Error ''execution reverted'')"
    by (simp add: read_reverts_once_def)
  from t executor_single_attempt
         [where bc = example_config and a = example_address and chain = broadcast_rejected
            and e = "Error ''insufficient funds''"]
  have a: "executeContractFunction example_config example_address broadcast_rejected
     = Some (Inr (JBool True), 1)"
    by simp
  from c executor_single_attempt
         [where calls = read_reverts_once and e = "Error ''execution reverted''"]
  have b: "callContractFunction read_reverts_once = Some (Inr (JBool True), 1)"
    by simp
  from a b show ?thesis by simp
qed

section \<open>Operation result resolver: the loop\<close>

lemma getResult_loop_exhausted:
  "int retries > m \<Longrightarrow>
     getResult_loop poll m retries
       = (Inl (Error ''Unable to get results. Max number of retries reached.''), retries)"
  by (subst getResult_loop.simps) simp

lemma getResult_loop_pending:
  "\<lbrakk>int retries \<le> m; poll retries = Inr d; status d = STATUS_pending\<rbrakk> \<Longrightarrow>
     getResult_loop poll m retries = getResult_loop poll m (Suc retries)"
  by (subst getResult_loop.simps) simp

lemma getResult_loop_final:
  "\<lbrakk>int retries \<le> m; poll retries = Inr d; status d \<noteq> STATUS_pending\<rbrakk> \<Longrightarrow>
     getResult_loop poll m retries = (Inr d, Suc retries)"
  by (subst getResult_loop.simps) simp

lemma getResult_loop_thrown:
  "\<lbrakk>int retries \<le> m; poll retries = Inl e\<rbrakk> \<Longrightarrow>
     getResult_loop poll m retries = (Inl e, Suc retries)"
  by (subst getResult_loop.simps) simp

lemma getResult_loop_all_pending:
  assumes "\<forall>i. retries \<le> i \<and> int i \<le> m \<longrightarrow> (\<exists>d. poll i = Inr d \<and> status d = STATUS_pending)"
  shows "getResult_loop poll m retries
           = (Inl (Error ''Unable to get results. Max number of retries reached.''),
              max retries (nat (m + 1)))"
  using assms
proof (induction poll m retries rule: getResult_loop.induct)
  case (1 poll m retries)
  show ?case
  proof (cases "int retries > m")
    case True
    then have "max retries (nat (m + 1)) = retries" by simp
    with True show ?thesis by (simp add: getResult_loop_exhausted)
  next
    case False
    with 1(2) obtain d where d: "poll retries = Inr d" "status d = STATUS_pending"
      by auto
    have "\<forall>i. Suc retries \<le> i \<and> int i \<le> m
            \<longrightarrow> (\<exists>d. poll i = Inr d \<and> status d = STATUS_pending)"
      using 1(2) by auto
    with 1(1) False d
    have "getResult_loop poll m (Suc retries)
           = (Inl (Error ''Unable to get results. Max number of retries reached.''),
              max (Suc retries) (nat (m + 1)))"
      by simp
    moreover from False have "max (Suc retries) (nat (m + 1)) = max retries (nat (m + 1))"
      by simp
    ultimately show ?thesis
      using False d by (simp add: getResult_loop_pending)
  qed
qed

lemma getResult_loop_result:
  assumes "getResult_loop poll m retries = (out, k)"
  shows "(\<forall>d. out = Inr d \<longrightarrow> 0 < k \<and> poll (k - 1) = Inr d \<and> status d \<noteq> STATUS_pending)
       \<and> (\<forall>e. out = Inl e \<longrightarrow>
             e = Error ''Unable to get results. Max number of retries reached.''
             \<or> (0 < k \<and> poll (k - 1) = Inl e))"
  using assms
proof (induction poll m retries rule: getResult_loop.induct)
  case (1 poll m retries)
  show ?case
  proof (cases "int retries > m")
    case True
    with 1(2) show ?thesis by (auto simp: getResult_loop_exhausted)
  next
    case False
    show ?thesis
    proof (cases "poll retries")
      case (Inl e)
      with False 1(2) show ?thesis by (auto simp: getResult_loop_thrown)
    next
      case (Inr d)
      show ?thesis
      proof (cases "status d = STATUS_pending")
        case True
        with False Inr 1(2) have "getResult_loop poll m (Suc retries) = (out, k)"
          by (simp add: getResult_loop_pending)
        with 1(1) False Inr True show ?thesis by simp
      next
        case False': False
        with False Inr 1(2) show ?thesis by (auto simp: getResult_loop_final)
      qed
    qed
  qed
qed

section \<open>Operation result resolver: bounded polling\<close>

text \<open>
  C2. With a handle and an operation given and a maximum number of retries of at
  least 2, the status sequence PENDING, PENDING, COMPLETED makes \<open>_getResult\<close> return
  the body of the COMPLETED response, after three requests. When every response up to
  the one numbered by the maximum is PENDING, that is \<open>maxRetries + 1\<close> responses,
  \<open>_getResult\<close> raises the error of exhausted retries after exactly
  \<open>maxRetries + 1\<close> requests.
\<close>

theorem getResult_bounded_polling:
  "(truthy_str (r_handler_id options) \<and> truthy_str (r_operation options)
      \<and> 2 \<le> truthy_or (r_maxNumberOfRetries options) (maxNumberOfRetries this)
      \<and> poll 0 = Inr d0 \<and> status d0 = STATUS_pending
      \<and> poll 1 = Inr d1 \<and> status d1 = STATUS_pending
      \<and> poll 2 = Inr d2 \<and> status d2 = STATUS_completed
      \<longrightarrow> getResult this options poll = (Inr d2, 3))
   \<and> (truthy_str (r_handler_id options) \<and> truthy_str (r_operation options)
      \<and> - 1 \<le> truthy_or (r_maxNumberOfRetries options) (maxNumberOfRetries this)
      \<and> (\<forall>i. int i \<le> truthy_or (r_maxNumberOfRetries options) (maxNumberOfRetries this)
             \<longrightarrow> (\<exists>d. poll i = Inr d \<and> status d = STATUS_pending))
      \<longrightarrow> getResult this options poll
            = (Inl (Error ''Unable to get results. Max number of retries reached.''),
               nat (truthy_or (r_maxNumberOfRetries options) (maxNumberOfRetries this) + 1)))"
proof (intro conjI impI)
  define m where "m = truthy_or (r_maxNumberOfRetries options) (maxNumberOfRetries this)"
  assume a: "truthy_str (r_handler_id options) \<and> truthy_str (r_operation options)
      \<and> 2 \<le> truthy_or (r_maxNumberOfRetries options) (maxNumberOfRetries this)
      \<and> poll 0 = Inr d0 \<and> status d0 = STATUS_pending
      \<and> poll 1 = Inr d1 \<and> status d1 = STATUS_pending
      \<and> poll 2 = Inr d2 \<and> status d2 = STATUS_completed"
  then have m2: "2 \<le> m" by (simp add: m_def)
  from a have fin: "status d2 \<noteq> STATUS_pending" "status d2 \<noteq> STATUS_failed"
    by (simp_all add: STATUS_completed_def STATUS_pending_def STATUS_failed_def)
  have "getResult_loop poll m 0 = getResult_loop poll m (Suc 0)"
    using a m2 by (intro getResult_loop_pending [of 0 m poll d0]) simp_all
  also have "\<dots> = getResult_loop poll m (Suc (Suc 0))"
    using a m2 by (intro getResult_loop_pending [of "Suc 0" m poll d1]) simp_all
  also have "\<dots> = (Inr d2, Suc (Suc (Suc 0)))"
    using a m2 fin by (intro getResult_loop_final [of "Suc (Suc 0)" m poll d2])
      (simp_all add: numeral_2_eq_2)
  finally have "getResult_loop poll m 0 = (Inr d2, 3)"
    by (simp add: numeral_3_eq_3)
  with a fin show "getResult this options poll = (Inr d2, 3)"
    by (simp add: getResult_def m_def)
next
  define m where "m = truthy_or (r_maxNumberOfRetries options) (maxNumberOfRetries this)"
  assume b: "truthy_str (r_handler_id options) \<and> truthy_str (r_operation options)
      \<and> - 1 \<le> truthy_or (r_maxNumberOfRetries options) (maxNumberOfRetries this)
      \<and> (\<forall>i. int i \<le> truthy_or (r_maxNumberOfRetries options) (maxNumberOfRetries this)
             \<longrightarrow> (\<exists>d. poll i = Inr d \<and> status d = STATUS_pending))"
  then have "\<forall>i. 0 \<le> i \<and> int i \<le> m \<longrightarrow> (\<exists>d. poll i = Inr d \<and> status d = STATUS_pending)"
    by (simp add: m_def)
  from getResult_loop_all_pending [OF this]
  have "getResult_loop poll m 0
          = (Inl (Error ''Unable to get results. Max number of retries reached.''), nat (m + 1))"
    by simp
  with b show "getResult this options poll
            = (Inl (Error ''Unable to get results. Max number of retries reached.''),
               nat (truthy_or (r_maxNumberOfRetries options) (maxNumberOfRetries this) + 1))"
    by (simp add: getResult_def m_def)
qed

theorem getResult_bounded_polling_witness:
  "getResult example_client example_request completes_third = (Inr completed_response, 3)
   \<and> getResult example_client example_request always_pending
     = (Inl (Error ''Unable to get results. Max number of retries reached.''), 6)"
  using getResult_bounded_polling
          [of example_request example_client completes_third
              pending_response pending_response completed_response]
    getResult_bounded_polling
          [of example_request example_client always_pending
              pending_response pending_response completed_response]
  by (simp add: example_request_def example_client_def completes_third_def always_pending_def
        pending_response_def completed_response_def
        STATUS_pending_def STATUS_completed_def)

section \<open>Operation result resolver: what the caller receives\<close>

lemma sublist_failedMessage: "message d = Some m \<Longrightarrow> sublist m (failedMessage options d)"
proof -
  assume "message d = Some m"
  then have "failedMessage options d
      = (''Get '' @ template_str (r_operation options) @ '' failed. Reason: '') @ m @ ''.''"
    by (simp add: failedMessage_def)
  then show ?thesis
    by (simp only: sublist_appendI)
qed

lemma getResult_loop_run:
  assumes "\<forall>i<n. \<exists>x. poll (r + i) = Inr x \<and> status x = STATUS_pending"
    and "int (r + n) \<le> m"
  shows "getResult_loop poll m r = getResult_loop poll m (r + n)"
  using assms
proof (induction n arbitrary: r)
  case 0
  then show ?case by simp
next
  case (Suc n)
  from Suc.prems(1) obtain x where x: "poll r = Inr x" "status x = STATUS_pending"
    by (metis add.right_neutral zero_less_Suc)
  from Suc.prems(2) have r: "int r \<le> m" by simp
  have "\<forall>i<n. \<exists>x. poll (Suc r + i) = Inr x \<and> status x = STATUS_pending"
    using Suc.prems(1) by (metis Suc_less_eq add_Suc_shift)
  moreover from Suc.prems(2) have "int (Suc r + n) \<le> m" by simp
  ultimately have "getResult_loop poll m (Suc r) = getResult_loop poll m (Suc r + n)"
    by (rule Suc.IH)
  with getResult_loop_pending [of r m poll x] r x show ?case by simp
qed

text \<open>
  The outcome of \<open>_getResult\<close> after \<open>n\<close> PENDING responses and a response that
  is not PENDING, received within the budget of retries.
\<close>

lemma getResult_settled:
  assumes handle: "truthy_str (r_handler_id options) \<and> truthy_str (r_operation options)"
    and budget: "int n \<le> truthy_or (r_maxNumberOfRetries options) (maxNumberOfRetries this)"
    and run: "\<forall>i<n. \<exists>x. poll i = Inr x \<and> status x = STATUS_pending"
    and last: "poll n = Inr d" "status d \<noteq> STATUS_pending"
  shows "getResult this options poll
           = (if status d = STATUS_failed
              then (Inl (Error (failedMessage options d)), Suc n)
              else (Inr d, Suc n))"
proof -
  define m where "m = truthy_or (r_maxNumberOfRetries options) (maxNumberOfRetries this)"
  from run have "\<forall>i<n. \<exists>x. poll (0 + i) = Inr x \<and> status x = STATUS_pending" by simp
  moreover from budget have b: "int (0 + n) \<le> m" by (simp add: m_def)
  ultimately have "getResult_loop poll m 0 = getResult_loop poll m (0 + n)"
    by (rule getResult_loop_run)
  also have "\<dots> = (Inr d, Suc n)"
    using b last by (simp add: getResult_loop_final)
  finally show ?thesis
    using handle by (simp add: getResult_def m_def)
qed

text \<open>
  C3. \<open>_getResult\<close> never returns a response whose status is PENDING: a body it
  returns is the body of the last response received, and that response is neither
  PENDING nor FAILED. For a submitted operation (a handle and an operation are given)
  the outcome follows the status responses: after any number of PENDING responses, a
  COMPLETED response received within the budget of retries is returned to the caller,
  and a FAILED response received within the budget makes the call raise the error
  built from that response, whose text contains the message of the response; when
  the responses are PENDING throughout the budget, the call raises the error of
  exhausted retries. When every response is PENDING, COMPLETED or FAILED, there is no
  other outcome.
\<close>

theorem getResult_never_pending:
  "(getResult this options poll = (Inr d, k)
      \<longrightarrow> 0 < k \<and> poll (k - 1) = Inr d
          \<and> status d \<noteq> STATUS_pending \<and> status d \<noteq> STATUS_failed)
   \<and> (truthy_str (r_handler_id options) \<and> truthy_str (r_operation options)
      \<and> int n \<le> truthy_or (r_maxNumberOfRetries options) (maxNumberOfRetries this)
      \<and> (\<forall>i<n. \<exists>x. poll i = Inr x \<and> status x = STATUS_pending)
      \<and> poll n = Inr c \<and> status c = STATUS_completed
      \<longrightarrow> getResult this options poll = (Inr c, Suc n))
   \<and> (truthy_str (r_handler_id options) \<and> truthy_str (r_operation options)
      \<and> int n \<le> truthy_or (r_maxNumberOfRetries options) (maxNumberOfRetries this)
      \<and> (\<forall>i<n. \<exists>x. poll i = Inr x \<and> status x = STATUS_pending)
      \<and> poll n = Inr f \<and> status f = STATUS_failed
      \<longrightarrow> getResult this options poll = (Inl (Error (failedMessage options f)), Suc n))
   \<and> (truthy_str (r_handler_id options) \<and> truthy_str (r_operation options)
      \<and> (\<forall>i. int i \<le> truthy_or (r_maxNumberOfRetries options) (maxNumberOfRetries this)
             \<longrightarrow> (\<exists>x. poll i = Inr x \<and> status x = STATUS_pending))
      \<longrightarrow> getResult this options poll
            = (Inl (Error ''Unable to get results. Max number of retries reached.''),
               nat (truthy_or (r_maxNumberOfRetries options) (maxNumberOfRetries this) + 1)))
   \<and> (truthy_str (r_handler_id options) \<and> truthy_str (r_operation options)
      \<and> (\<forall>i. \<exists>x. poll i = Inr x
                 \<and> (status x = STATUS_pending \<or> status x = STATUS_completed
                     \<or> status x = STATUS_failed))
      \<longrightarrow> (\<exists>x j. getResult this options poll = (Inr x, j) \<and> poll (j - 1) = Inr x
                   \<and> status x = STATUS_completed)
          \<or> (\<exists>x j. getResult this options poll = (Inl (Error (failedMessage options x)), j)
                   \<and> poll (j - 1) = Inr x \<and> status x = STATUS_failed)
          \<or> (\<exists>j. getResult this options poll
                   = (Inl (Error ''Unable to get results. Max number of retries reached.''), j)))
   \<and> (message x = Some m \<longrightarrow> sublist m (failedMessage options x))"
proof (intro conjI impI)
  assume ret: "getResult this options poll = (Inr d, k)"
  define m where "m = truthy_or (r_maxNumberOfRetries options) (maxNumberOfRetries this)"
  obtain out j where loop: "getResult_loop poll m 0 = (out, j)"
    by (cases "getResult_loop poll m 0") auto
  from ret loop have o: "out = Inr d" "j = k" "status d \<noteq> STATUS_failed"
    by (auto simp: getResult_def m_def split: if_splits sum.splits)
  with getResult_loop_result [OF loop]
  show "0 < k" "poll (k - 1) = Inr d" "status d \<noteq> STATUS_pending" "status d \<noteq> STATUS_failed"
    by simp_all
next
  assume a: "truthy_str (r_handler_id options) \<and> truthy_str (r_operation options)
      \<and> int n \<le> truthy_or (r_maxNumberOfRetries options) (maxNumberOfRetries this)
      \<and> (\<forall>i<n. \<exists>x. poll i = Inr x \<and> status x = STATUS_pending)
      \<and> poll n = Inr c \<and> status c = STATUS_completed"
  then have st: "status c \<noteq> STATUS_pending" "status c \<noteq> STATUS_failed"
    by (simp_all add: STATUS_completed_def STATUS_pending_def STATUS_failed_def)
  from a st(1) have "getResult this options poll
           = (if status c = STATUS_failed
              then (Inl (Error (failedMessage options c)), Suc n)
              else (Inr c, Suc n))"
    by (intro getResult_settled) simp_all
  with st(2) show "getResult this options poll = (Inr c, Suc n)" by simp
next
  assume a: "truthy_str (r_handler_id options) \<and> truthy_str (r_operation options)
      \<and> int n \<le> truthy_or (r_maxNumberOfRetries options) (maxNumberOfRetries this)
      \<and> (\<forall>i<n. \<exists>x. poll i = Inr x \<and> status x = STATUS_pending)
      \<and> poll n = Inr f \<and> status f = STATUS_failed"
  then have st: "status f \<noteq> STATUS_pending"
    by (simp add: STATUS_pending_def STATUS_failed_def)
  from a st have "getResult this options poll
           = (if status f = STATUS_failed
              then (Inl (Error (failedMessage options f)), Suc n)
              else (Inr f, Suc n))"
    by (intro getResult_settled) simp_all
  with a show "getResult this options poll = (Inl (Error (failedMessage options f)), Suc n)"
    by simp
next
  define m where "m = truthy_or (r_maxNumberOfRetries options) (maxNumberOfRetries this)"
  assume b: "truthy_str (r_handler_id options) \<and> truthy_str (r_operation options)
      \<and> (\<forall>i. int i \<le> truthy_or (r_maxNumberOfRetries options) (maxNumberOfRetries this)
             \<longrightarrow> (\<exists>x. poll i = Inr x \<and> status x = STATUS_pending))"
  then have "\<forall>i. 0 \<le> i \<and> int i \<le> m \<longrightarrow> (\<exists>d. poll i = Inr d \<and> status d = STATUS_pending)"
    by (simp add: m_def)
  from getResult_loop_all_pending [OF this]
  have "getResult_loop poll m 0
          = (Inl (Error ''Unable to get results. Max number of retries reached.''), nat (m + 1))"
    by simp
  with b show "getResult this options poll
            = (Inl (Error ''Unable to get results. Max number of retries reached.''),
               nat (truthy_or (r_maxNumberOfRetries options) (maxNumberOfRetries this) + 1))"
    by (simp add: getResult_def m_def)
next
  assume "message x = Some m"
  then show "sublist m (failedMessage options x)" by (rule sublist_failedMessage)
next
  assume a: "truthy_str (r_handler_id options) \<and> truthy_str (r_operation options)
      \<and> (\<forall>i. \<exists>x. poll i = Inr x
                 \<and> (status x = STATUS_pending \<or> status x = STATUS_completed
                     \<or> status x = STATUS_failed))"
  define m where "m = truthy_or (r_maxNumberOfRetries options) (maxNumberOfRetries this)"
  obtain out j where loop: "getResult_loop poll m 0 = (out, j)"
    by (cases "getResult_loop poll m 0") auto
  note res = getResult_loop_result [OF loop]
  show "(\<exists>x j. getResult this options poll = (Inr x, j) \<and> poll (j - 1) = Inr x
                   \<and> status x = STATUS_completed)
          \<or> (\<exists>x j. getResult this options poll = (Inl (Error (failedMessage options x)), j)
                   \<and> poll (j - 1) = Inr x \<and> status x = STATUS_failed)
          \<or> (\<exists>j. getResult this options poll
                   = (Inl (Error ''Unable to get results. Max number of retries reached.''), j))"
  proof (cases out)
    case (Inl e)
    with res a have "e = Error ''Unable to get results. Max number of retries reached.''"
      by (metis Inl_Inr_False)
    with Inl loop a have "getResult this options poll
        = (Inl (Error ''Unable to get results. Max number of retries reached.''), j)"
      by (simp add: getResult_def m_def)
    then show ?thesis by blast
  next
    case (Inr y)
    with res have y: "poll (j - 1) = Inr y" "status y \<noteq> STATUS_pending" by simp_all
    with a have st: "status y = STATUS_completed \<or> status y = STATUS_failed"
      by (metis sum.inject(2))
    show ?thesis
    proof (cases "status y = STATUS_failed")
      case True
      with Inr loop a have "getResult this options poll
          = (Inl (Error (failedMessage options y)), j)"
        by (simp add: getResult_def m_def)
      with y True show ?thesis by blast
    next
      case False
      with st have c: "status y = STATUS_completed" by simp
      from False Inr loop a have "getResult this options poll = (Inr y, j)"
        by (simp add: getResult_def m_def)
      with c y show ?thesis by blast
    qed
  qed
qed

theorem getResult_never_pending_witness:
  "getResult example_client example_request fails_first
     = (Inl (Error ''Get resolve failed. Reason: bad request.''), 1)
   \<and> sublist ''bad request'' ''Get resolve failed. Reason: bad request.''
   \<and> getResult example_client example_request completes_third = (Inr completed_response, 3)"
proof -
  have handle: "truthy_str (r_handler_id example_request)
      \<and> truthy_str (r_operation example_request)"
    by (simp add: example_request_def)
  have budget: "truthy_or (r_maxNumberOfRetries example_request)
      (maxNumberOfRetries example_client) = 5"
    by (simp add: example_request_def example_client_def)
  have msg: "failedMessage example_request failed_response
      = ''Get resolve failed. Reason: bad request.''"
    by (simp add: failedMessage_def example_request_def failed_response_def)
  have none: "\<forall>i<0. \<exists>x. fails_first i = Inr x \<and> status x = STATUS_pending"
    by simp
  have failed: "fails_first 0 = Inr failed_response \<and> status failed_response = STATUS_failed"
    by (simp add: fails_first_def failed_response_def STATUS_failed_def)
  have two: "\<forall>i<2. \<exists>x. completes_third i = Inr x \<and> status x = STATUS_pending"
    by (simp add: completes_third_def pending_response_def STATUS_pending_def)
  have third: "completes_third 2 = Inr completed_response
      \<and> status completed_response = STATUS_completed"
    by (simp add: completes_third_def completed_response_def STATUS_completed_def)
  have "getResult example_client example_request fails_first
     = (Inl (Error (failedMessage example_request failed_response)), Suc 0)"
    by (rule getResult_never_pending
          [THEN conjunct2, THEN conjunct2, THEN conjunct1, THEN mp])
      (simp add: handle budget none failed)
  then have a: "getResult example_client example_request fails_first
     = (Inl (Error ''Get resolve failed. Reason: bad request.''), 1)"
    by (simp add: msg)
  have "sublist ''bad request'' (failedMessage example_request failed_response)"
    by (rule getResult_never_pending
          [THEN conjunct2, THEN conjunct2, THEN conjunct2, THEN conjunct2, THEN conjunct2,
            THEN mp])
      (simp add: failed_response_def)
  then have b: "sublist ''bad request'' ''Get resolve failed. Reason: bad request.''"
    by (simp only: msg)
  have "getResult example_client example_request completes_third
     = (Inr completed_response, Suc 2)"
    by (rule getResult_never_pending [THEN conjunct2, THEN conjunct1, THEN mp])
      (simp add: handle budget two third)
  then have c: "getResult example_client example_request completes_third
     = (Inr completed_response, 3)"
    by simp
  from a b c show ?thesis by simp
qed

section \<open>Streaming search poller\<close>

lemma getSearchResult_loop_continue:
  "\<lbrakk>fetch i = Inr d; cb d = None; \<not> timeoutFlag i; int (length (itemListElement d)) < target\<rbrakk>
     \<Longrightarrow> getSearchResult_loop fetch timeoutFlag cb target i
           = getSearchResult_loop fetch timeoutFlag cb target (Suc i)"
  by (subst getSearchResult_loop.simps) simp

lemma getSearchResult_loop_stop:
  "\<lbrakk>fetch i = Inr d; cb d = None; timeoutFlag i \<or> target \<le> int (length (itemListElement d))\<rbrakk>
     \<Longrightarrow> getSearchResult_loop fetch timeoutFlag cb target i = Some (Inr d, Suc i)"
  by (subst getSearchResult_loop.simps) auto

lemma getSearchResult_loop_run:
  assumes "\<forall>j<k. \<exists>d. fetch (i + j) = Inr d \<and> cb d = None \<and> \<not> timeoutFlag (i + j)
                      \<and> int (length (itemListElement d)) < target"
  shows "getSearchResult_loop fetch timeoutFlag cb target i
           = getSearchResult_loop fetch timeoutFlag cb target (i + k)"
  using assms
proof (induction k arbitrary: i)
  case 0
  then show ?case by simp
next
  case (Suc k)
  from Suc.prems obtain d where d: "fetch i = Inr d" "cb d = None" "\<not> timeoutFlag i"
      "int (length (itemListElement d)) < target"
    by (metis add.right_neutral zero_less_Suc)
  have "\<forall>j<k. \<exists>d. fetch (Suc i + j) = Inr d \<and> cb d = None \<and> \<not> timeoutFlag (Suc i + j)
                      \<and> int (length (itemListElement d)) < target"
    using Suc.prems by (metis Suc_less_eq add_Suc_shift)
  from Suc.IH [OF this] d show ?case
    by (simp add: getSearchResult_loop_continue)
qed

lemma getSearchResult_loop_sound:
  assumes "getSearchResult_loop fetch timeoutFlag cb target i = Some y"
  shows "i < snd y
       \<and> (\<forall>d. fst y = Inr d \<longrightarrow> fetch (snd y - 1) = Inr d
              \<and> (timeoutFlag (snd y - 1) \<or> target \<le> int (length (itemListElement d))))
       \<and> (\<forall>j. i \<le> j \<and> Suc j < snd y \<longrightarrow>
             (\<exists>x. fetch j = Inr x \<and> \<not> timeoutFlag j \<and> int (length (itemListElement x)) < target))"
  using assms
proof (induction rule: getSearchResult_loop.raw_induct [rotated 1, consumes 1, case_names step])
  case (step loop fetch timeoutFlag cb target i y)
  show ?case
  proof (cases "fetch i")
    case (Inl e)
    with step(2) show ?thesis by auto
  next
    case (Inr x)
    show ?thesis
    proof (cases "cb x")
      case (Some e)
      with Inr step(2) show ?thesis by auto
    next
      case None
      show ?thesis
      proof (cases "\<not> timeoutFlag i \<and> int (length (itemListElement x)) < target")
        case False
        with Inr None step(2) have "y = (Inr x, Suc i)" by auto
        with Inr False show ?thesis by auto
      next
        case True
        with Inr None step(2) have rec: "loop fetch timeoutFlag cb target (Suc i) = Some y"
          by simp
        note ih = step(1) [OF rec]
        have "\<exists>z. fetch j = Inr z \<and> \<not> timeoutFlag j \<and> int (length (itemListElement z)) < target"
          if "i \<le> j" and "Suc j < snd y" for j
        proof (cases "j = i")
          case True
          with Inr \<open>\<not> timeoutFlag i \<and> int (length (itemListElement x)) < target\<close>
          show ?thesis by simp
        next
          case False
          with that have "Suc i \<le> j" by simp
          with that ih show ?thesis by blast
        qed
        with ih show ?thesis by auto
      qed
    qed
  qed
qed

text \<open>
  C6. The loop of \<open>_getSearchResult\<close> goes on while the timer has not fired and the
  number of items fetched is below the target, and otherwise ends and returns the
  payload fetched last: after \<open>n\<close> ticks at whose end the timer had not fired and
  the count was below the target, a tick at whose end the timer has fired or the count
  has reached the target makes the call return the payload of that tick, after
  \<open>n + 1\<close> ticks; and whenever the call returns a payload, that payload was fetched
  in the last tick, the condition to go on failed then, and it held after every earlier
  tick. The target is the per-call \<open>numberOfResults\<close> if truthy, else the client's.
\<close>

theorem getSearchResult_loop_condition:
  "(truthy_str (r_handler_id options)
      \<and> (\<forall>j<n. \<exists>x. fetch j = Inr x \<and> cb x = None \<and> \<not> timeoutFlag j
             \<and> int (length (itemListElement x))
                 < truthy_or (r_numberOfResults options) (numberOfResults this))
      \<and> fetch n = Inr d \<and> cb d = None
      \<and> (timeoutFlag n
          \<or> truthy_or (r_numberOfResults options) (numberOfResults this)
               \<le> int (length (itemListElement d)))
      \<longrightarrow> getSearchResult this options fetch timeoutFlag cb = Some (Inr d, Suc n))
   \<and> (getSearchResult this options fetch timeoutFlag cb = Some (Inr d', k)
      \<longrightarrow> 0 < k \<and> fetch (k - 1) = Inr d'
          \<and> (timeoutFlag (k - 1)
              \<or> truthy_or (r_numberOfResults options) (numberOfResults this)
                   \<le> int (length (itemListElement d')))
          \<and> (\<forall>j. Suc j < k \<longrightarrow>
                (\<exists>x. fetch j = Inr x \<and> \<not> timeoutFlag j
                   \<and> int (length (itemListElement x))
                       < truthy_or (r_numberOfResults options) (numberOfResults this))))"
proof (intro conjI impI)
  define T where "T = truthy_or (r_numberOfResults options) (numberOfResults this)"
  assume a: "truthy_str (r_handler_id options)
      \<and> (\<forall>j<n. \<exists>x. fetch j = Inr x \<and> cb x = None \<and> \<not> timeoutFlag j
             \<and> int (length (itemListElement x))
                 < truthy_or (r_numberOfResults options) (numberOfResults this))
      \<and> fetch n = Inr d \<and> cb d = None
      \<and> (timeoutFlag n
          \<or> truthy_or (r_numberOfResults options) (numberOfResults this)
               \<le> int (length (itemListElement d)))"
  then have "\<forall>j<n. \<exists>x. fetch (0 + j) = Inr x \<and> cb x = None \<and> \<not> timeoutFlag (0 + j)
                      \<and> int (length (itemListElement x)) < T"
    by (simp add: T_def)
  from getSearchResult_loop_run [OF this]
  have "getSearchResult_loop fetch timeoutFlag cb T 0
          = getSearchResult_loop fetch timeoutFlag cb T n"
    by simp
  also have "\<dots> = Some (Inr d, Suc n)"
    using a by (intro getSearchResult_loop_stop) (simp_all add: T_def)
  finally show "getSearchResult this options fetch timeoutFlag cb = Some (Inr d, Suc n)"
    using a by (simp add: getSearchResult_def T_def)
next
  define T where "T = truthy_or (r_numberOfResults options) (numberOfResults this)"
  assume ret: "getSearchResult this options fetch timeoutFlag cb = Some (Inr d', k)"
  then have "getSearchResult_loop fetch timeoutFlag cb T 0 = Some (Inr d', k)"
    by (simp add: getSearchResult_def T_def split: if_splits)
  note s = getSearchResult_loop_sound [OF this, simplified]
  from s show "0 < k" by simp
  from s show "fetch (k - 1) = Inr d'" by simp
  from s show "timeoutFlag (k - 1)
      \<or> truthy_or (r_numberOfResults options) (numberOfResults this)
           \<le> int (length (itemListElement d'))"
    by (simp add: T_def)
  from s show "\<forall>j. Suc j < k \<longrightarrow>
                (\<exists>x. fetch j = Inr x \<and> \<not> timeoutFlag j
                   \<and> int (length (itemListElement x))
                       < truthy_or (r_numberOfResults options) (numberOfResults this))"
    by (simp add: T_def)
qed

theorem getSearchResult_loop_condition_witness:
  "getSearchResult example_client example_request growing_results never_fires quiet_callback
     = Some (Inr \<lparr>itemListElement = replicate 2000 JNull\<rparr>, 3)
   \<and> getSearchResult example_client example_request growing_results fires_during_second_tick
       quiet_callback
     = Some (Inr \<lparr>itemListElement = replicate 50 JNull\<rparr>, 2)"
proof -
  have T: "truthy_or (r_numberOfResults example_request) (numberOfResults example_client) = 2000"
    by (simp add: example_request_def example_client_def)
  have h: "truthy_str (r_handler_id example_request)"
    by (simp add: example_request_def)
  have run2: "\<forall>j<2. \<exists>x. growing_results j = Inr x \<and> quiet_callback x = None \<and> \<not> never_fires j
             \<and> int (length (itemListElement x))
                 < truthy_or (r_numberOfResults example_request) (numberOfResults example_client)"
    unfolding T by (simp add: growing_results_def quiet_callback_def never_fires_def)
  have run1: "\<forall>j<1. \<exists>x. growing_results j = Inr x \<and> quiet_callback x = None
             \<and> \<not> fires_during_second_tick j
             \<and> int (length (itemListElement x))
                 < truthy_or (r_numberOfResults example_request) (numberOfResults example_client)"
    unfolding T by (simp add: growing_results_def quiet_callback_def fires_during_second_tick_def)
  have f2: "growing_results 2 = Inr \<lparr>itemListElement = replicate 2000 JNull\<rparr>"
    by (simp add: growing_results_def)
  have f1: "growing_results 1 = Inr \<lparr>itemListElement = replicate 50 JNull\<rparr>"
    by (simp add: growing_results_def)
  have q: "quiet_callback x = None" for x
    by (simp add: quiet_callback_def)
  have s2: "never_fires 2
      \<or> truthy_or (r_numberOfResults example_request) (numberOfResults example_client)
           \<le> int (length (itemListElement \<lparr>itemListElement = replicate 2000 JNull\<rparr>))"
    unfolding T by simp
  have s1: "fires_during_second_tick 1
      \<or> truthy_or (r_numberOfResults example_request) (numberOfResults example_client)
           \<le> int (length (itemListElement \<lparr>itemListElement = replicate 50 JNull\<rparr>))"
    by (simp add: fires_during_second_tick_def)
  have "getSearchResult example_client example_request growing_results never_fires
             quiet_callback
     = Some (Inr \<lparr>itemListElement = replicate 2000 JNull\<rparr>, Suc 2)"
    by (rule getSearchResult_loop_condition [THEN conjunct1, THEN mp])
      (intro conjI h run2 f2 q s2)
  moreover have "getSearchResult example_client example_request growing_results
             fires_during_second_tick quiet_callback
     = Some (Inr \<lparr>itemListElement = replicate 50 JNull\<rparr>, Suc 1)"
    by (rule getSearchResult_loop_condition [THEN conjunct1, THEN mp])
      (intro conjI h run1 f1 q s1)
  ultimately show ?thesis by simp
qed

section \<open>Proof validator\<close>

lemma validateProofs_eq:
  "validateProofs rootHash objs acc
     = acc @ map (\<lambda>obj. \<lparr>v_triple = triple obj, valid = JUndefined\<rparr>)
               (filter (\<lambda>obj. entry_proof obj \<noteq> JNull) objs)"
  by (induction objs arbitrary: acc) (simp_all add: validateProof_def)

lemma validateProofs_valid_undefined:
  "r \<in> set (validateProofs rootHash objs []) \<Longrightarrow> valid r = JUndefined"
  by (auto simp: validateProofs_eq)

lemma validateProofs_skips_null:
  "entry_proof obj = JNull \<Longrightarrow>
     validateProofs rootHash (obj # objs) acc = validateProofs rootHash objs acc"
  by simp

text \<open>
  C7. For an assertion with one proof entry that has a Merkle path and one whose
  proof is \<open>null\<close>, \<open>_performValidation\<close> returns a single record, for the first
  entry, and its \<open>valid\<close> is \<open>undefined\<close>, whatever the root hash: neither
  \<open>true\<close> nor \<open>false\<close>.
\<close>

theorem performValidation_valid_undefined:
  "performValidation example_rootHash example_assertions
     = Inr [\<lparr>v_triple = ''<uuid:1> <company> OT .'', valid = JUndefined\<rparr>]"
  by (simp add: performValidation_def example_assertions_def example_rootHash_def
        validateProof_def)

section \<open>Client constructor\<close>

text \<open>
  C10. With an endpoint and a port the constructor yields a client. When
  \<open>maxNumberOfRetries\<close>, \<open>timeoutInSeconds\<close>, \<open>numberOfResults\<close> or \<open>frequency\<close>
  is passed as zero or as a negative number, the client has the default of that
  setting (5, 25, 2000 and 5); so each of the four settings of a client is positive.
\<close>

theorem AbstractClient_zero_gives_default:
  "(truthy_str (o_endpoint options) \<and> truthy_str (o_port options)
      \<longrightarrow> (\<exists>x. AbstractClient options = Inr x))
   \<and> (AbstractClient options = Inr c \<longrightarrow>
        ((\<exists>v. o_maxNumberOfRetries options = Some v \<and> v \<le> 0) \<longrightarrow> maxNumberOfRetries c = 5)
      \<and> ((\<exists>v. o_timeoutInSeconds options = Some v \<and> v \<le> 0) \<longrightarrow> timeoutInSeconds c = 25)
      \<and> ((\<exists>v. o_numberOfResults options = Some v \<and> v \<le> 0) \<longrightarrow> numberOfResults c = 2000)
      \<and> ((\<exists>v. o_frequency options = Some v \<and> v \<le> 0) \<longrightarrow> frequency c = 5)
      \<and> 0 < maxNumberOfRetries c \<and> 0 < timeoutInSeconds c
      \<and> 0 < numberOfResults c \<and> 0 < frequency c)"
proof (intro conjI impI)
  assume "truthy_str (o_endpoint options) \<and> truthy_str (o_port options)"
  then show "\<exists>x. AbstractClient options = Inr x"
    by (simp add: AbstractClient_def)
next
  have pos: "0 < nonneg_or x d" if "0 < d" for x d
    using that by (cases x) auto
  have dflt: "nonneg_or x d = d" if "\<exists>v. x = Some v \<and> v \<le> 0" for x d
    using that by auto
  assume c: "AbstractClient options = Inr c"
  then have fields:
    "maxNumberOfRetries c = nonneg_or (o_maxNumberOfRetries options) defaultMaxNumberOfRetries"
    "timeoutInSeconds c = nonneg_or (o_timeoutInSeconds options) defaultTimeoutInSeconds"
    "numberOfResults c = nonneg_or (o_numberOfResults options) defaultNumberOfResults"
    "frequency c = nonneg_or (o_frequency options) defaultFrequency"
    by (auto simp: AbstractClient_def split: if_splits)
  show "0 < maxNumberOfRetries c"
    by (simp add: fields pos defaultMaxNumberOfRetries_def)
  show "0 < timeoutInSeconds c"
    by (simp add: fields pos defaultTimeoutInSeconds_def)
  show "0 < numberOfResults c"
    by (simp add: fields pos defaultNumberOfResults_def)
  show "0 < frequency c"
    by (simp add: fields pos defaultFrequency_def)
  {
    assume "\<exists>v. o_maxNumberOfRetries options = Some v \<and> v \<le> 0"
    then show "maxNumberOfRetries c = 5"
      by (simp only: fields dflt defaultMaxNumberOfRetries_def)
  next
    assume "\<exists>v. o_timeoutInSeconds options = Some v \<and> v \<le> 0"
    then show "timeoutInSeconds c = 25"
      by (simp only: fields dflt defaultTimeoutInSeconds_def)
  next
    assume "\<exists>v. o_numberOfResults options = Some v \<and> v \<le> 0"
    then show "numberOfResults c = 2000"
      by (simp only: fields dflt defaultNumberOfResults_def)
  next
    assume "\<exists>v. o_frequency options = Some v \<and> v \<le> 0"
    then show "frequency c = 5"
      by (simp only: fields dflt defaultFrequency_def)
  }
qed

theorem AbstractClient_zero_gives_default_witness:
  "AbstractClient zero_options = Inr example_client
   \<and> maxNumberOfRetries example_client = 5 \<and> timeoutInSeconds example_client = 25
   \<and> numberOfResults example_client = 2000 \<and> frequency example_client = 5"
proof -
  have made: "AbstractClient zero_options = Inr example_client"
    by (simp add: AbstractClient_def zero_options_def example_client_def
          defaultMaxNumberOfRetries_def defaultTimeoutInSeconds_def
          defaultNumberOfResults_def defaultFrequency_def)
  from AbstractClient_zero_gives_default [of zero_options example_client] made
  have "maxNumberOfRetries example_client = 5 \<and> timeoutInSeconds example_client = 25
   \<and> numberOfResults example_client = 2000 \<and> frequency example_client = 5"
    by (simp add: zero_options_def)
  with made show ?thesis by simp
qed

end
